theory Spec2Isabelle
  imports Complex_Main
begin

section \<open>Strings and numbers of the worker\<close>

text \<open>
  The worker is TypeScript: its code is the part of \<open>src/README.md\<close> that starts at
  the comment \<open>Cloudflare Worker to convert Anthropic API calls to Gemini API calls\<close> (the
  tests import it as \<open>src/worker\<close>), with the interfaces of \<open>src/src/types.ts\<close>.
  A string is modelled as the list of its code units, read as code points below 256:
  \<open>toLowerCase\<close> and \<open>trim\<close> below are the ECMAScript functions on that range.
  A JavaScript number that the worker only tests against zero and copies is a \<open>real\<close>
  (a request decoded from JSON holds no NaN).
\<close>

type_synonym number = real

definition startsWith :: "string \<Rightarrow> string \<Rightarrow> bool" where
  "startsWith s p = (take (length p) s = p)"

fun includes_str :: "string \<Rightarrow> string \<Rightarrow> bool" where
  "includes_str [] p = (p = [])"
| "includes_str (c # cs) p = (startsWith (c # cs) p \<or> includes_str cs p)"

definition lower_unit :: "char \<Rightarrow> char" where
  "lower_unit c =
     (let n = (of_char c :: nat)
      in if (65 \<le> n \<and> n \<le> 90) \<or> (192 \<le> n \<and> n \<le> 222 \<and> n \<noteq> 215)
         then char_of (n + 32) else c)"

definition toLowerCase :: "string \<Rightarrow> string" where
  "toLowerCase s = map lower_unit s"

definition is_space :: "char \<Rightarrow> bool" where
  "is_space c = ((of_char c :: nat) \<in> {9, 10, 11, 12, 13, 32, 160})"

definition trim :: "string \<Rightarrow> string" where
  "trim s = rev (dropWhile is_space (rev (dropWhile is_space s)))"

fun join_newline :: "string list \<Rightarrow> string" where
  "join_newline [] = []"
| "join_newline [x] = x"
| "join_newline (x # y # zs) = x @ ''\<newline>'' @ join_newline (y # zs)"

text \<open>\<open>s.split('\n')\<close>: never empty, the last element is the text after the last newline.\<close>

fun split_newline :: "string \<Rightarrow> string list" where
  "split_newline [] = [[]]"
| "split_newline (c # cs) =
     (if c = CHR ''\<newline>'' then [] # split_newline cs
      else (c # hd (split_newline cs)) # tl (split_newline cs))"

section \<open>Model mapper\<close>

text \<open>The own properties of the object literal \<open>MODEL_MAPPING\<close>, in source order.\<close>

definition MODEL_MAPPING :: "(string \<times> string) list" where
  "MODEL_MAPPING =
    [(''claude-3-sonnet'', ''google/gemini-2.5-flash''),
     (''claude-3-sonnet-20240229'', ''google/gemini-2.5-flash''),
     (''claude-3.5-sonnet'', ''google/gemini-2.5-flash''),
     (''claude-3.5-sonnet-20240620'', ''google/gemini-2.5-flash''),
     (''claude-3.5-sonnet-20241022'', ''google/gemini-2.5-flash''),
     (''claude-3-opus'', ''google/gemini-2.5-pro''),
     (''claude-3-opus-20240229'', ''google/gemini-2.5-pro''),
     (''claude-3-haiku'', ''google/gemini-2.5-flash-lite''),
     (''claude-3-haiku-20240307'', ''google/gemini-2.5-flash-lite''),
     (''claude-4-opus'', ''google/gemini-2.5-pro''),
     (''claude-4-sonnet'', ''google/gemini-2.5-flash''),
     (''claude-4-haiku'', ''google/gemini-2.5-flash-lite'')]"

text \<open>
  \<open>MODEL_MAPPING\<close> is an object literal, so \<open>MODEL_MAPPING[k]\<close> also finds the
  properties that every object inherits from \<open>Object.prototype\<close>. Their values are
  functions (an object for \<open>__proto__\<close>): none is a string, all are truthy.
\<close>

definition Object_prototype_properties :: "string list" where
  "Object_prototype_properties =
    [''constructor'', ''hasOwnProperty'', ''isPrototypeOf'', ''propertyIsEnumerable'',
     ''toLocaleString'', ''toString'', ''valueOf'', ''__proto__'',
     ''__defineGetter__'', ''__defineSetter__'', ''__lookupGetter__'', ''__lookupSetter__'']"

text \<open>
  What \<open>getGeminiModel\<close> hands back: a string, or the inherited member found under the
  given name.
\<close>

datatype model_value = ModelString string | InheritedMember string

definition property_lookup :: "string \<Rightarrow> model_value option" where
  "property_lookup k =
     (case map_of MODEL_MAPPING k of
        Some v \<Rightarrow> Some (ModelString v)
      | None \<Rightarrow> if k \<in> set Object_prototype_properties then Some (InheritedMember k) else None)"

definition getGeminiModel :: "string \<Rightarrow> model_value" where
  "getGeminiModel claudeModel =
     (case property_lookup claudeModel of
        Some v \<Rightarrow> v
      | None \<Rightarrow>
          (let lowerModel = toLowerCase claudeModel
           in if includes_str lowerModel ''opus'' then ModelString ''google/gemini-2.5-pro''
              else if includes_str lowerModel ''sonnet'' then ModelString ''google/gemini-2.5-flash''
              else if includes_str lowerModel ''haiku'' then ModelString ''google/gemini-2.5-flash-lite''
              else ModelString ''google/gemini-2.5-flash''))"

section \<open>Data model (\<open>src/types.ts\<close>)\<close>

text \<open>
  Interfaces are records (a recursive one is a datatype with selectors), string unions are
  datatypes, an optional field \<open>f?: T\<close> is a \<open>T option\<close>. Field names carry a prefix
  naming their interface. Fields that the worker never reads or writes are left out.
  \<open>Record<string, any>\<close> and the JSON schema of a tool are JSON values.
\<close>

datatype json =
    JNull
  | JBool bool
  | JNumber number
  | JString string
  | JArray "json list"
  | JObject "(string \<times> json) list"

text \<open>JavaScript truthiness of a value decoded from JSON, and of an optional string.\<close>

fun truthy_json :: "json \<Rightarrow> bool" where
  "truthy_json JNull = False"
| "truthy_json (JBool b) = b"
| "truthy_json (JNumber n) = (n \<noteq> 0)"
| "truthy_json (JString s) = (s \<noteq> [])"
| "truthy_json (JArray xs) = True"
| "truthy_json (JObject kvs) = True"

fun truthy :: "string option \<Rightarrow> bool" where
  "truthy None = False"
| "truthy (Some s) = (s \<noteq> [])"

datatype content_type = type_text | type_image | type_tool_use | type_tool_result

record image_source =
  src_media_type :: string
  src_data :: string

datatype AnthropicContent =
  AnthropicContent
    (c_type: content_type)
    (c_text: "string option")
    (c_source: "image_source option")
    (c_tool_use_id: "string option")
    (c_name: "string option")
    (c_input: "json option")
    (c_content: "nested_content option")
    (c_is_error: "bool option")
and nested_content =
    ContentString string
  | ContentBlocks "AnthropicContent list"

text \<open>
  \<open>content: string | AnthropicContent[]\<close>; \<open>convertAnthropicMessage\<close> also has a path
  for a value that is neither (it leaves the text empty), here \<open>OtherContent\<close>.
\<close>

datatype message_content =
    PlainText string
  | Blocks "AnthropicContent list"
  | OtherContent

record AnthropicMessage =
  am_role :: "string option"
  am_content :: message_content

record AnthropicTool =
  at_name :: string
  at_description :: string
  at_input_schema :: json

text \<open>\<open>'auto' | 'any' | { type: 'tool'; name: string }\<close>, the string and the type tag as sent.\<close>

datatype AnthropicToolChoice =
    ChoiceString string
  | ChoiceObject (choice_type: string) (choice_name: string)

text \<open>
  \<open>types.ts\<close> declares \<open>model\<close> and \<open>messages\<close> as required, but the request is the
  decoded body of an HTTP call and \<open>validateAnthropicRequest\<close> tests both for absence
  and \<open>messages\<close> for not being an array: the model keeps these cases.
\<close>

datatype messages_field =
    MessagesAbsent
  | MessagesNotArray
  | MessagesArray "AnthropicMessage list"

record AnthropicRequest =
  ar_model :: "string option"
  ar_messages :: messages_field
  ar_max_tokens :: "number option"
  ar_temperature :: "number option"
  ar_top_p :: "number option"
  ar_system :: "string option"
  ar_tools :: "AnthropicTool list option"
  ar_tool_choice :: "AnthropicToolChoice option"
  ar_stop_sequences :: "string list option"
  ar_stream :: "bool option"

datatype stop_reason = end_turn | max_tokens | stop_sequence | tool_use

record anthropic_usage =
  input_tokens :: number
  output_tokens :: number

text \<open>\<open>type\<close> and \<open>role\<close> of a response are the constants \<open>'message'\<close> and \<open>'assistant'\<close>.\<close>

record AnthropicResponse =
  rs_id :: string
  rs_content :: "AnthropicContent list"
  rs_model :: "string option"
  rs_stop_reason :: stop_reason
  rs_stop_sequence :: "string option"
  rs_usage :: anthropic_usage

datatype event_type =
    message_start | content_block_start | content_block_delta | content_block_stop
  | message_delta | message_stop | error_event

datatype delta_type = text_delta | input_json_delta

record stream_delta =
  sd_type :: delta_type
  sd_text :: "string option"
  sd_partial_json :: "string option"

record AnthropicStreamChunk =
  ev_type :: event_type
  ev_index :: "nat option"
  ev_delta :: "stream_delta option"

datatype gemini_role = role_system | role_user | role_assistant

record GeminiMessage =
  gm_role :: gemini_role
  gm_content :: string

text \<open>\<open>type\<close> of a tool and of a tool call is the constant \<open>'function'\<close>.\<close>

record GeminiTool =
  gt_name :: string
  gt_description :: string
  gt_parameters :: json

record GeminiToolCall =
  tc_id :: string
  tc_name :: string
  tc_arguments :: string

datatype GeminiToolChoice =
    choice_none
  | choice_auto
  | choice_function string

record GeminiRequest =
  gr_model :: model_value
  gr_messages :: "GeminiMessage list"
  gr_max_tokens :: "number option"
  gr_temperature :: "number option"
  gr_top_p :: "number option"
  gr_tools :: "GeminiTool list option"
  gr_tool_choice :: "GeminiToolChoice option"
  gr_stop :: "string list option"
  gr_stream :: "bool option"

record choice_message =
  cm_content :: "string option"
  cm_tool_calls :: "GeminiToolCall list option"

record choice_delta =
  cd_content :: "string option"
  cd_tool_calls :: "GeminiToolCall list option"

text \<open>
  \<open>finish_reason\<close> is declared as one of four strings; the worker's \<open>switch\<close> has a
  \<open>default\<close> branch for any other, so it is a string here.
\<close>

record GeminiChoice =
  gc_message :: "choice_message option"
  gc_delta :: "choice_delta option"
  gc_finish_reason :: "string option"

record gemini_usage =
  prompt_tokens :: number
  completion_tokens :: number
  total_tokens :: number

record gemini_error =
  ge_type :: string
  ge_message :: string

record GeminiResponse =
  gp_choices :: "GeminiChoice list option"
  gp_usage :: "gemini_usage option"
  gp_error :: "gemini_error option"

record GeminiStreamChunk =
  sc_choices :: "GeminiChoice list option"

text \<open>
  \<open>ConversionResult<T>\<close>: \<open>{success: true, data}\<close> or \<open>{success: false, error}\<close>.
\<close>

datatype 'a ConversionResult = Success 'a | Failure string

text \<open>The field \<open>success\<close> of a result.\<close>

fun success :: "'a ConversionResult \<Rightarrow> bool" where
  "success (Success x) = True"
| "success (Failure e) = False"

section \<open>The platform's JSON functions\<close>

text \<open>
  \<open>JSON.stringify\<close> and \<open>JSON.parse\<close> belong to the JavaScript engine, not to the
  repository; the translators take them as parameters, and every theorem below holds for
  all of them.
  \<^item> \<open>stringify\<close> is \<open>JSON.stringify\<close> on a JSON value, \<open>stringify_blocks\<close> on a list of
    content blocks.
  \<^item> A \<open>json_decoder\<close> is \<open>JSON.parse\<close> on a tool call's argument text: \<open>Inl msg\<close> when
    it throws a \<open>SyntaxError\<close> with message \<open>msg\<close>.
  \<^item> A \<open>chunk_decoder\<close> is \<open>JSON.parse(data) as GeminiStreamChunk\<close>: \<open>None\<close> when
    \<open>JSON.parse\<close> throws. Texts that are JSON without the shape of a stream chunk are
    outside the model.
\<close>

record json_encoder =
  stringify :: "json \<Rightarrow> string"
  stringify_blocks :: "AnthropicContent list \<Rightarrow> string"

type_synonym json_decoder = "string \<Rightarrow> string + json"

type_synonym chunk_decoder = "string \<Rightarrow> GeminiStreamChunk option"

text \<open>\<open>x || ''\<close> on an optional string, and \<open>s || d\<close> on a string.\<close>

fun or_empty :: "string option \<Rightarrow> string" where
  "or_empty None = []"
| "or_empty (Some s) = s"

definition or_default :: "string \<Rightarrow> string \<Rightarrow> string" where
  "or_default s d = (if s = [] then d else s)"

section \<open>Validator\<close>

definition validateAnthropicRequest :: "AnthropicRequest \<Rightarrow> unit ConversionResult" where
  "validateAnthropicRequest request =
     (if \<not> truthy (ar_model request) then Failure ''Missing required field: model''
      else case ar_messages request of
          MessagesAbsent \<Rightarrow> Failure ''Missing or invalid messages field''
        | MessagesNotArray \<Rightarrow> Failure ''Missing or invalid messages field''
        | MessagesArray messages \<Rightarrow>
            if length messages = 0 then Failure ''Messages array cannot be empty''
            else Success ())"

section \<open>Request translator\<close>

text \<open>
  What one content block pushes onto \<open>textParts\<close> (the body of the \<open>forEach\<close> in
  \<open>convertAnthropicMessage\<close>): nothing or one string. The template literal renders an
  absent \<open>content\<close> as \<open>undefined\<close>.
\<close>

definition content_item_parts :: "json_encoder \<Rightarrow> AnthropicContent \<Rightarrow> string list" where
  "content_item_parts enc contentItem =
     (if c_type contentItem = type_text \<and> truthy (c_text contentItem)
      then [or_empty (c_text contentItem)]
      else if c_type contentItem = type_tool_use \<and> truthy (c_name contentItem)
              \<and> (case c_input contentItem of None \<Rightarrow> False | Some v \<Rightarrow> truthy_json v)
      then [''[Tool Call: '' @ or_empty (c_name contentItem) @ ''(''
             @ (case c_input contentItem of None \<Rightarrow> ''undefined'' | Some v \<Rightarrow> stringify enc v)
             @ '')]'']
      else if c_type contentItem = type_tool_result
      then [''[Tool Result: ''
             @ (case c_content contentItem of
                  None \<Rightarrow> ''undefined''
                | Some (ContentString s) \<Rightarrow> s
                | Some (ContentBlocks bs) \<Rightarrow> stringify_blocks enc bs)
             @ '']'']
      else [])"

text \<open>The local variable \<open>content\<close> of \<open>convertAnthropicMessage\<close> before the emptiness test.\<close>

definition flattened_content :: "json_encoder \<Rightarrow> AnthropicMessage \<Rightarrow> string" where
  "flattened_content enc msg =
     (case am_content msg of
        PlainText s \<Rightarrow> s
      | Blocks items \<Rightarrow> join_newline (concat (map (content_item_parts enc) items))
      | OtherContent \<Rightarrow> [])"

text \<open>\<open>null\<close> is \<open>None\<close>. The index is only logged.\<close>

definition convertAnthropicMessage ::
    "json_encoder \<Rightarrow> AnthropicMessage \<Rightarrow> nat \<Rightarrow> GeminiMessage option" where
  "convertAnthropicMessage enc msg index =
     (let content = flattened_content enc msg
      in if trim content = [] then None
         else Some \<lparr>gm_role = (if am_role msg = Some ''assistant'' then role_assistant
                                else role_user),
                     gm_content = content\<rparr>)"

definition convertAnthropicToolsToGemini :: "AnthropicTool list \<Rightarrow> GeminiTool list" where
  "convertAnthropicToolsToGemini tools =
     map (\<lambda>tool. \<lparr>gt_name = at_name tool, gt_description = at_description tool,
                  gt_parameters = at_input_schema tool\<rparr>) tools"

text \<open>\<open>undefined\<close> is \<open>None\<close>, on both sides.\<close>

fun convertAnthropicToolChoice :: "AnthropicToolChoice option \<Rightarrow> GeminiToolChoice option" where
  "convertAnthropicToolChoice None = None"
| "convertAnthropicToolChoice (Some (ChoiceString s)) =
     (if s = [] then None
      else if s = ''auto'' then Some choice_auto
      else if s = ''any'' then Some choice_auto
      else Some choice_auto)"
| "convertAnthropicToolChoice (Some (ChoiceObject t n)) =
     (if t = ''tool'' \<and> n \<noteq> [] then Some (choice_function n)
      else Some choice_auto)"

fun truthy_choice :: "AnthropicToolChoice option \<Rightarrow> bool" where
  "truthy_choice None = False"
| "truthy_choice (Some (ChoiceString s)) = (s \<noteq> [])"
| "truthy_choice (Some (ChoiceObject t n)) = True"

text \<open>
  The messages of the \<open>TypeError\<close>s that the \<open>try\<close> block of \<open>convertAnthropicToGemini\<close>
  catches when \<open>model\<close> or \<open>messages\<close> is not what \<open>types.ts\<close> declares (V8's wording).
\<close>

definition TypeError_model_undefined :: string where
  "TypeError_model_undefined = ''Cannot read properties of undefined (reading 'toLowerCase')''"

definition TypeError_messages_undefined :: string where
  "TypeError_messages_undefined = ''Cannot read properties of undefined (reading 'forEach')''"

definition TypeError_messages_not_array :: string where
  "TypeError_messages_not_array = ''messages.forEach is not a function''"

definition convertAnthropicToGemini ::
    "json_encoder \<Rightarrow> AnthropicRequest \<Rightarrow> GeminiRequest ConversionResult" where
  "convertAnthropicToGemini enc anthropicRequest =
     (case ar_model anthropicRequest of
        None \<Rightarrow> Failure (''Request conversion failed: '' @ TypeError_model_undefined)
      | Some model \<Rightarrow>
          (case ar_messages anthropicRequest of
             MessagesAbsent \<Rightarrow>
               Failure (''Request conversion failed: '' @ TypeError_messages_undefined)
           | MessagesNotArray \<Rightarrow>
               Failure (''Request conversion failed: '' @ TypeError_messages_not_array)
           | MessagesArray messages \<Rightarrow>
               (let geminiModel = getGeminiModel model;
                    systemMessages =
                      (if truthy (ar_system anthropicRequest)
                       then [\<lparr>gm_role = role_system,
                              gm_content = or_empty (ar_system anthropicRequest)\<rparr>]
                       else []);
                    geminiMessages = systemMessages @
                      List.map_filter (\<lambda>(index, msg). convertAnthropicMessage enc msg index)
                        (enumerate 0 messages);
                    convertedTools =
                      (case ar_tools anthropicRequest of
                         None \<Rightarrow> None
                       | Some tools \<Rightarrow>
                           if length tools > 0 \<and> length (convertAnthropicToolsToGemini tools) > 0
                           then Some (convertAnthropicToolsToGemini tools) else None)
                in Success
                     \<lparr>gr_model = geminiModel,
                      gr_messages = geminiMessages,
                      gr_max_tokens =
                        (case ar_max_tokens anthropicRequest of
                           None \<Rightarrow> Some 1024
                         | Some n \<Rightarrow> if n = 0 then Some 1024 else Some n),
                      gr_temperature =
                        (case ar_temperature anthropicRequest of
                           None \<Rightarrow> Some 0.7
                         | Some t \<Rightarrow> Some t),
                      gr_top_p = ar_top_p anthropicRequest,
                      gr_tools = convertedTools,
                      gr_tool_choice =
                        (if convertedTools \<noteq> None \<and> truthy_choice (ar_tool_choice anthropicRequest)
                         then convertAnthropicToolChoice (ar_tool_choice anthropicRequest)
                         else None),
                      gr_stop =
                        (case ar_stop_sequences anthropicRequest of
                           None \<Rightarrow> None
                         | Some seqs \<Rightarrow> if length seqs > 0 then Some seqs else None),
                      gr_stream = None\<rparr>)))"

section \<open>Response translator\<close>

text \<open>
  The block pushed for one tool call, and the \<open>forEach\<close> over \<open>tool_calls\<close>: one
  \<open>tool_use\<close> block per call, in order. A
  \<open>SyntaxError\<close> of \<open>JSON.parse\<close> leaves the loop (\<open>Inl\<close> its message); nothing in
  the loop catches it.
\<close>

definition tool_use_block :: "GeminiToolCall \<Rightarrow> json \<Rightarrow> AnthropicContent" where
  "tool_use_block toolCall v =
     AnthropicContent type_tool_use None None (Some (tc_id toolCall)) (Some (tc_name toolCall))
       (Some v) None None"

fun tool_use_blocks :: "json_decoder \<Rightarrow> GeminiToolCall list \<Rightarrow> string + AnthropicContent list" where
  "tool_use_blocks parse [] = Inr []"
| "tool_use_blocks parse (toolCall # rest) =
     (case parse (or_default (tc_arguments toolCall) ''{}'') of
        Inl msg \<Rightarrow> Inl msg
      | Inr v \<Rightarrow>
          (case tool_use_blocks parse rest of
             Inl msg \<Rightarrow> Inl msg
           | Inr blocks \<Rightarrow>
               Inr (tool_use_block toolCall v # blocks)))"

definition text_block :: "string \<Rightarrow> AnthropicContent" where
  "text_block t = AnthropicContent type_text (Some t) None None None None None None"

text \<open>\<open>geminiResponse.choices?.[0]\<close>, for the response and for a stream chunk.\<close>

fun first_choice :: "GeminiChoice list option \<Rightarrow> GeminiChoice option" where
  "first_choice None = None"
| "first_choice (Some []) = None"
| "first_choice (Some (c # cs)) = Some c"

definition map_finish_reason :: "string \<Rightarrow> stop_reason" where
  "map_finish_reason r =
     (if r = ''stop'' then end_turn
      else if r = ''length'' then max_tokens
      else if r = ''tool_calls'' then tool_use
      else if r = ''content_filter'' then stop_sequence
      else end_turn)"

text \<open>
  \<open>msg_id\<close> is the identifier that the worker builds from \<open>Date.now()\<close> and
  \<open>Math.random()\<close>.
\<close>

definition convertGeminiToAnthropic ::
    "json_decoder \<Rightarrow> string \<Rightarrow> GeminiResponse \<Rightarrow> AnthropicRequest
      \<Rightarrow> AnthropicResponse ConversionResult" where
  "convertGeminiToAnthropic parse msg_id geminiResponse originalRequest =
     (case gp_error geminiResponse of
        Some err \<Rightarrow>
          Failure (or_default (ge_message err) ''Unknown error from Gemini API'')
      | None \<Rightarrow>
          (case first_choice (gp_choices geminiResponse) of
             None \<Rightarrow> Failure ''No response choices from Gemini API''
           | Some choice \<Rightarrow>
               (let toolCalls =
                      (case gc_message choice of
                         None \<Rightarrow> []
                       | Some m \<Rightarrow> (case cm_tool_calls m of None \<Rightarrow> [] | Some tcs \<Rightarrow> tcs))
                in case tool_use_blocks parse toolCalls of
                     Inl msg \<Rightarrow> Failure (''Response conversion failed: '' @ msg)
                   | Inr toolBlocks \<Rightarrow>
                       (let textBlocks =
                              (case gc_message choice of
                                 None \<Rightarrow> []
                               | Some m \<Rightarrow>
                                   if truthy (cm_content m) then [text_block (or_empty (cm_content m))]
                                   else []);
                            content = toolBlocks @ textBlocks;
                            content' = (if length content = 0 then [text_block []] else content);
                            stopReason = (if length toolCalls > 0 then tool_use else end_turn);
                            stopReason' =
                              (if truthy (gc_finish_reason choice)
                               then map_finish_reason (or_empty (gc_finish_reason choice))
                               else stopReason)
                        in Success
                             \<lparr>rs_id = msg_id,
                              rs_content = content',
                              rs_model = ar_model originalRequest,
                              rs_stop_reason = stopReason',
                              rs_stop_sequence = None,
                              rs_usage =
                                \<lparr>input_tokens =
                                   (case gp_usage geminiResponse of
                                      None \<Rightarrow> 0 | Some u \<Rightarrow> prompt_tokens u),
                                 output_tokens =
                                   (case gp_usage geminiResponse of
                                      None \<Rightarrow> 0 | Some u \<Rightarrow> completion_tokens u)\<rparr>\<rparr>))))"

section \<open>Stream translator\<close>

definition text_delta_event :: "string \<Rightarrow> AnthropicStreamChunk" where
  "text_delta_event t =
     \<lparr>ev_type = content_block_delta, ev_index = Some 0,
      ev_delta = Some \<lparr>sd_type = text_delta, sd_text = Some t, sd_partial_json = None\<rparr>\<rparr>"

definition input_json_delta_event :: "string \<Rightarrow> AnthropicStreamChunk" where
  "input_json_delta_event j =
     \<lparr>ev_type = content_block_delta, ev_index = Some 0,
      ev_delta = Some \<lparr>sd_type = input_json_delta, sd_text = None, sd_partial_json = Some j\<rparr>\<rparr>"

definition message_stop_event :: AnthropicStreamChunk where
  "message_stop_event = \<lparr>ev_type = message_stop, ev_index = None, ev_delta = None\<rparr>"

definition error_stream_event :: AnthropicStreamChunk where
  "error_stream_event = \<lparr>ev_type = error_event, ev_index = None, ev_delta = None\<rparr>"

definition convertGeminiStreamChunk ::
    "GeminiStreamChunk \<Rightarrow> AnthropicRequest \<Rightarrow> AnthropicStreamChunk option" where
  "convertGeminiStreamChunk geminiChunk originalRequest =
     (case first_choice (sc_choices geminiChunk) of
        None \<Rightarrow> None
      | Some choice \<Rightarrow>
          (let content =
                 (case gc_delta choice of None \<Rightarrow> [] | Some d \<Rightarrow> or_empty (cd_content d));
               toolCalls =
                 (case gc_delta choice of
                    None \<Rightarrow> []
                  | Some d \<Rightarrow> (case cd_tool_calls d of None \<Rightarrow> [] | Some tcs \<Rightarrow> tcs))
           in if content \<noteq> [] then Some (text_delta_event content)
              else (case toolCalls of
                      toolCall # others \<Rightarrow> Some (input_json_delta_event (tc_arguments toolCall))
                    | [] \<Rightarrow>
                        if truthy (gc_finish_reason choice) then Some message_stop_event
                        else None)))"

text \<open>
  The \<open>for\<close> loop over the complete lines of one read: the events it writes, in order.
  The \<open>break\<close> at \<open>[DONE]\<close> leaves this loop. A payload on which the decoder throws
  writes nothing (the inner \<open>catch\<close> only logs).
\<close>

fun process_lines ::
    "chunk_decoder \<Rightarrow> AnthropicRequest \<Rightarrow> string list \<Rightarrow> AnthropicStreamChunk list" where
  "process_lines parse req [] = []"
| "process_lines parse req (line # lines) =
     (if startsWith line ''data: '' then
        (if drop 6 line = ''[DONE]'' then [message_stop_event]
         else (case parse (drop 6 line) of
                 None \<Rightarrow> []
               | Some geminiChunk \<Rightarrow>
                   (case convertGeminiStreamChunk geminiChunk req of
                      None \<Rightarrow> []
                    | Some anthropicChunk \<Rightarrow> [anthropicChunk]))
              @ process_lines parse req lines)
      else process_lines parse req lines)"

text \<open>
  The \<open>while (true)\<close> loop: \<open>buffer\<close> is the pending text, the list holds the values
  that \<open>reader.read()\<close> still delivers (decoded text: the decoder is stateful, so the
  text of the stream is the concatenation); when the list is empty \<open>done\<close> is true.
  \<open>split\<close> never returns an empty array, so \<open>lines.pop()\<close> is its last element.
\<close>

fun read_loop ::
    "chunk_decoder \<Rightarrow> AnthropicRequest \<Rightarrow> string \<Rightarrow> string list \<Rightarrow> AnthropicStreamChunk list" where
  "read_loop parse req buffer [] = []"
| "read_loop parse req buffer (v # rest) =
     process_lines parse req (butlast (split_newline (buffer @ v)))
       @ read_loop parse req (last (split_newline (buffer @ v))) rest"

text \<open>
  The body of the backend's response: the values it delivers and how it ends
  (\<open>read_fails\<close>: a \<open>read()\<close> is rejected after them). The writer records the events
  written (each framed as \<open>event: <type>\n data: <json>\n\n\<close> by the worker) and whether
  it was closed.
\<close>

datatype stream_end = stream_done | read_fails

record response_body =
  rb_values :: "string list"
  rb_end :: stream_end

record stream_writer =
  written :: "AnthropicStreamChunk list"
  closed :: bool

definition processGeminiStream ::
    "chunk_decoder \<Rightarrow> response_body option \<Rightarrow> stream_writer \<Rightarrow> AnthropicRequest
      \<Rightarrow> stream_writer" where
  "processGeminiStream parse body writer originalRequest =
     (case body of
        None \<Rightarrow> \<lparr>written = written writer @ [error_stream_event], closed = True\<rparr>
      | Some b \<Rightarrow>
          \<lparr>written = written writer
             @ read_loop parse originalRequest [] (rb_values b)
             @ (case rb_end b of stream_done \<Rightarrow> [] | read_fails \<Rightarrow> [error_stream_event]),
           closed = True\<rparr>)"

section \<open>Vocabulary of the statements\<close>



section \<open>Concrete inputs\<close>

text \<open>
  The requests, responses and streams at which the theorems are instantiated. The sample
  encoder and decoders are \<open>JSON.stringify\<close> and \<open>JSON.parse\<close> on the texts that occur
  in these inputs: the JSON texts listed are decoded to their values, the other texts
  that occur are not JSON. The wording of a \<open>SyntaxError\<close> message is the engine's own;
  the sample decoder has one fixed message in its place, and no statement below depends
  on its wording.
\<close>

definition sample_encoder :: json_encoder where
  \<open>sample_encoder =
     \<lparr>stringify = (\<lambda>v. if v = JObject [] then ''{}'' else ''{"a":1}''),
      stringify_blocks = (\<lambda>bs. ''[]'')\<rparr>\<close>

definition example_request :: "string \<Rightarrow> AnthropicMessage list \<Rightarrow> AnthropicRequest" where
  "example_request m ms =
     \<lparr>ar_model = Some m, ar_messages = MessagesArray ms, ar_max_tokens = None,
      ar_temperature = None, ar_top_p = None, ar_system = None, ar_tools = None,
      ar_tool_choice = None, ar_stop_sequences = None, ar_stream = None\<rparr>"

definition user_text :: "string \<Rightarrow> AnthropicMessage" where
  "user_text t = \<lparr>am_role = Some ''user'', am_content = PlainText t\<rparr>"

definition calculator_tool :: AnthropicTool where
  "calculator_tool =
     \<lparr>at_name = ''calculator'', at_description = ''A calculator'',
      at_input_schema = JObject [(''type'', JString ''object''), (''properties'', JObject [])]\<rparr>"



definition sample_json_decoder :: json_decoder where
  \<open>sample_json_decoder s =
     (if s = ''{}'' then Inr (JObject [])
      else if s = ''{"a":1,"b":2}'' then Inr (JObject [(''a'', JNumber 1), (''b'', JNumber 2)])
      else Inl ''Unexpected token in JSON'')\<close>

definition calculator_call :: "string \<Rightarrow> GeminiToolCall" where
  "calculator_call args = \<lparr>tc_id = ''call_123'', tc_name = ''calculator'', tc_arguments = args\<rparr>"

definition tool_call_response :: "string \<Rightarrow> GeminiResponse" where
  "tool_call_response args =
     \<lparr>gp_choices = Some
        [\<lparr>gc_message = Some
            \<lparr>cm_content = None,
             cm_tool_calls = Some [calculator_call args]\<rparr>,
          gc_delta = None,
          gc_finish_reason = Some ''tool_calls''\<rparr>],
      gp_usage = None,
      gp_error = None\<rparr>"

definition text_response :: "string \<Rightarrow> GeminiResponse" where
  "text_response t =
     \<lparr>gp_choices = Some
        [\<lparr>gc_message = Some \<lparr>cm_content = Some t, cm_tool_calls = None\<rparr>,
          gc_delta = None,
          gc_finish_reason = Some ''stop''\<rparr>],
      gp_usage = Some \<lparr>prompt_tokens = 10, completion_tokens = 5, total_tokens = 15\<rparr>,
      gp_error = None\<rparr>"

subsection \<open>Streams\<close>

text \<open>
  Vocabulary: a choice of a stream chunk that carries the non-empty text \<open>t\<close> in its
  delta; a choice that carries a finish reason and neither text nor tool calls; a list
  of lines in which every line after a terminator line is no data line.
\<close>

definition carries_text :: "GeminiChoice \<Rightarrow> string \<Rightarrow> bool" where
  "carries_text ch t =
     (t \<noteq> [] \<and> (case gc_delta ch of None \<Rightarrow> False | Some d \<Rightarrow> cd_content d = Some t))"

definition only_finish_reason :: "GeminiChoice \<Rightarrow> bool" where
  "only_finish_reason ch =
     (truthy (gc_finish_reason ch)
      \<and> (case gc_delta ch of
            None \<Rightarrow> True
          | Some d \<Rightarrow> \<not> truthy (cd_content d)
                     \<and> (cd_tool_calls d = None \<or> cd_tool_calls d = Some [])))"

fun done_then_inert :: "string list \<Rightarrow> bool" where
  "done_then_inert [] = True"
| "done_then_inert (l # ls) =
     (if l = ''data: [DONE]'' then (\<forall>x \<in> set ls. \<not> startsWith x ''data: '')
      else done_then_inert ls)"

text \<open>
  Three payloads of the backend with the chunks they decode to, a record of the backend's
  stream (\<open>data: <payload>\n\n\<close>), and streams built from them.
\<close>

definition hello_payload :: string where
  \<open>hello_payload = ''{"choices":[{"index":0,"delta":{"content":"Hello"}}]}''\<close>

definition there_payload :: string where
  \<open>there_payload = ''{"choices":[{"index":0,"delta":{"content":" there"}}]}''\<close>

definition finish_payload :: string where
  \<open>finish_payload = ''{"choices":[{"index":0,"finish_reason":"stop"}]}''\<close>

definition content_chunk :: "string \<Rightarrow> GeminiStreamChunk" where
  "content_chunk t =
     \<lparr>sc_choices = Some
        [\<lparr>gc_message = None,
          gc_delta = Some \<lparr>cd_content = Some t, cd_tool_calls = None\<rparr>,
          gc_finish_reason = None\<rparr>]\<rparr>"

definition finish_chunk :: GeminiStreamChunk where
  "finish_chunk =
     \<lparr>sc_choices = Some
        [\<lparr>gc_message = None, gc_delta = None, gc_finish_reason = Some ''stop''\<rparr>]\<rparr>"

definition sample_chunk_decoder :: chunk_decoder where
  "sample_chunk_decoder s =
     (if s = hello_payload then Some (content_chunk ''Hello'')
      else if s = there_payload then Some (content_chunk '' there'')
      else if s = finish_payload then Some finish_chunk
      else None)"

definition new_writer :: stream_writer where
  "new_writer = \<lparr>written = [], closed = False\<rparr>"

definition sse_record :: "string \<Rightarrow> string" where
  "sse_record d = ''data: '' @ d @ ''\<newline>\<newline>''"

definition late_data_stream :: response_body where
  "late_data_stream =
     \<lparr>rb_values = [sse_record ''[DONE]'', sse_record hello_payload], rb_end = stream_done\<rparr>"

definition test_stream :: "string list" where
  "test_stream =
     [sse_record hello_payload, sse_record there_payload, sse_record finish_payload,
      sse_record ''[DONE]'']"

section \<open>Properties of the model mapper\<close>

lemma includes_str_iff: "includes_str s p \<longleftrightarrow> (\<exists>a b. s = a @ p @ b)"
proof (induction s)
  case Nil then show ?case by auto
next
  case (Cons c cs)
  have st: "startsWith (c # cs) p \<longleftrightarrow> (\<exists>b. c # cs = p @ b)"
    unfolding startsWith_def
    by (metis append_eq_conv_conj append_take_drop_id)
  show ?case
  proof
    assume "includes_str (c # cs) p"
    then consider "startsWith (c # cs) p" | "includes_str cs p" by auto
    then show "\<exists>a b. c # cs = a @ p @ b"
    proof cases
      case 1 then obtain b where "c # cs = p @ b" using st by blast
      then have "c # cs = [] @ p @ b" by simp
      then show ?thesis by blast
    next
      case 2 then obtain a b where "cs = a @ p @ b" using Cons.IH by blast
      then have "c # cs = (c # a) @ p @ b" by simp
      then show ?thesis by blast
    qed
  next
    assume "\<exists>a b. c # cs = a @ p @ b"
    then obtain a b where ab: "c # cs = a @ p @ b" by blast
    show "includes_str (c # cs) p"
    proof (cases a)
      case Nil
      then have "startsWith (c # cs) p" using ab st by auto
      then show ?thesis by simp
    next
      case (Cons x xs) then have "cs = xs @ p @ b" using ab by simp
      then show ?thesis using Cons.IH by auto
    qed
  qed
qed

lemma getGeminiModel_table:
  "(k, v) \<in> set MODEL_MAPPING \<Longrightarrow> getGeminiModel k = ModelString v"
  by (auto simp: getGeminiModel_def property_lookup_def MODEL_MAPPING_def)

lemma getGeminiModel_fallback:
  assumes "k \<notin> fst ` set MODEL_MAPPING" and "k \<notin> set Object_prototype_properties"
  shows "getGeminiModel k =
     (if includes_str (toLowerCase k) ''opus'' then ModelString ''google/gemini-2.5-pro''
      else if includes_str (toLowerCase k) ''sonnet'' then ModelString ''google/gemini-2.5-flash''
      else if includes_str (toLowerCase k) ''haiku'' then ModelString ''google/gemini-2.5-flash-lite''
      else ModelString ''google/gemini-2.5-flash'')"
proof -
  have "map_of MODEL_MAPPING k = None" using assms(1) by (simp add: map_of_eq_None_iff)
  then have "property_lookup k = None" using assms(2) by (simp add: property_lookup_def)
  then show ?thesis by (simp add: getGeminiModel_def Let_def)
qed

lemma getGeminiModel_tiers:
  assumes "k \<notin> set Object_prototype_properties"
  shows "getGeminiModel k \<in> {ModelString ''google/gemini-2.5-pro'',
           ModelString ''google/gemini-2.5-flash'', ModelString ''google/gemini-2.5-flash-lite''}"
proof (cases "k \<in> fst ` set MODEL_MAPPING")
  case True
  then obtain v where kv: "(k, v) \<in> set MODEL_MAPPING" by auto
  then have "getGeminiModel k = ModelString v" by (rule getGeminiModel_table)
  moreover have "v \<in> {''google/gemini-2.5-pro'', ''google/gemini-2.5-flash'',
                       ''google/gemini-2.5-flash-lite''}"
    using kv by (auto simp: MODEL_MAPPING_def)
  ultimately show ?thesis by auto
next
  case False
  then show ?thesis using assms by (simp add: getGeminiModel_fallback)
qed

text \<open>
  Claim C5: \<open>getGeminiModel\<close> is total and always returns one of the three tier
  identifiers: the mapped value for a key of the table, and for any other string the tier
  named by \<open>opus\<close>, \<open>sonnet\<close>, \<open>haiku\<close> in its lower-cased form, else the balanced tier.
  The three lemmas above are this statement for every string that is not the name of a
  property of \<open>Object.prototype\<close>. At such a name the table lookup finds the inherited
  member and \<open>getGeminiModel\<close> returns it: for \<open>constructor\<close> the result is the function
  \<open>Object\<close>, not a tier identifier.
\<close>

theorem getGeminiModel_inherited_property:
  "getGeminiModel ''constructor'' = InheritedMember ''constructor''"
  by (simp add: getGeminiModel_def property_lookup_def MODEL_MAPPING_def
      Object_prototype_properties_def)

section \<open>Properties of the validator\<close>

text \<open>
  Claim C6: \<open>validateAnthropicRequest\<close> fails exactly when the model is absent or empty,
  or \<open>messages\<close> is absent, not an array or an empty array; the checks run in this order
  and the first that fails gives the error text; a request with a non-empty model and a
  non-empty messages array is accepted.
\<close>

theorem validateAnthropicRequest_contract:
  "(\<not> truthy (ar_model r) \<longrightarrow>
      validateAnthropicRequest r = Failure ''Missing required field: model'')
   \<and> (truthy (ar_model r) \<and> (ar_messages r = MessagesAbsent \<or> ar_messages r = MessagesNotArray) \<longrightarrow>
      validateAnthropicRequest r = Failure ''Missing or invalid messages field'')
   \<and> (truthy (ar_model r) \<and> ar_messages r = MessagesArray [] \<longrightarrow>
      validateAnthropicRequest r = Failure ''Messages array cannot be empty'')
   \<and> (truthy (ar_model r) \<and> ar_messages r = MessagesArray ms \<and> ms \<noteq> [] \<longrightarrow>
      validateAnthropicRequest r = Success ())
   \<and> ((\<exists>e. validateAnthropicRequest r = Failure e) \<longleftrightarrow>
        (ar_model r = None \<or> ar_model r = Some [] \<or> ar_messages r = MessagesAbsent
         \<or> ar_messages r = MessagesNotArray \<or> ar_messages r = MessagesArray []))"
proof -
  have t: "truthy (ar_model r) \<longleftrightarrow> \<not> (ar_model r = None \<or> ar_model r = Some [])"
    by (cases "ar_model r") auto
  show ?thesis
    unfolding t
    by (cases "ar_messages r") (auto simp: validateAnthropicRequest_def t)
qed

theorem validateAnthropicRequest_contract_witness:
  "validateAnthropicRequest ((example_request ''claude-3-sonnet'' [user_text ''Hello''])\<lparr>ar_model := None, ar_messages := MessagesAbsent\<rparr>)
      = Failure ''Missing required field: model''
   \<and> validateAnthropicRequest ((example_request ''claude-3-sonnet'' [])\<lparr>ar_messages := MessagesNotArray\<rparr>)
      = Failure ''Missing or invalid messages field''
   \<and> validateAnthropicRequest (example_request ''claude-3-sonnet'' [])
      = Failure ''Messages array cannot be empty''
   \<and> validateAnthropicRequest (example_request ''claude-3-sonnet'' [user_text ''Hello'']) = Success ()"
  using validateAnthropicRequest_contract
          [of "(example_request ''claude-3-sonnet'' [user_text ''Hello''])\<lparr>ar_model := None, ar_messages := MessagesAbsent\<rparr>" "[]"]
        validateAnthropicRequest_contract
          [of "(example_request ''claude-3-sonnet'' [])\<lparr>ar_messages := MessagesNotArray\<rparr>" "[]"]
        validateAnthropicRequest_contract [of "example_request ''claude-3-sonnet'' []" "[]"]
        validateAnthropicRequest_contract
          [of "example_request ''claude-3-sonnet'' [user_text ''Hello'']" "[user_text ''Hello'']"]
  by (simp add: example_request_def)

section \<open>Properties of the request translator\<close>


lemma convertAnthropicToGemini_total:
  assumes "ar_model r = Some m" and "ar_messages r = MessagesArray ms"
  shows "\<exists>g. convertAnthropicToGemini enc r = Success g"
  using assms by (simp add: convertAnthropicToGemini_def Let_def)









text \<open>
  Claim C8, as stated: \<open>{type: tool, name: N}\<close> is mapped to
  \<open>{type: function, function: {name: N}}\<close>. This fails for the empty name, which the
  guard \<open>toolChoice.name\<close> sends to \<open>auto\<close>.
\<close>

theorem convertAnthropicToolChoice_empty_name:
  "convertAnthropicToolChoice (Some (ChoiceObject ''tool'' [])) \<noteq> Some (choice_function [])"
  by simp

text \<open>
  Claim C8, amended: \<open>convertAnthropicToolChoice\<close> maps \<open>auto\<close> to \<open>auto\<close>, \<open>any\<close> to
  \<open>auto\<close>, \<open>{type: tool, name: N}\<close> with a non-empty \<open>N\<close> to
  \<open>{type: function, function: {name: N}}\<close> (with the empty name to \<open>auto\<close>), and an
  absent choice to no value; a
  translated request with tools and no tool choice has its tools and no \<open>tool_choice\<close>
  field.
\<close>

theorem convertAnthropicToolChoice_mapping:
  "convertAnthropicToolChoice (Some (ChoiceString ''auto'')) = Some choice_auto
   \<and> convertAnthropicToolChoice (Some (ChoiceString ''any'')) = Some choice_auto
   \<and> (N \<noteq> [] \<longrightarrow>
        convertAnthropicToolChoice (Some (ChoiceObject ''tool'' N)) = Some (choice_function N))
   \<and> convertAnthropicToolChoice (Some (ChoiceObject ''tool'' [])) = Some choice_auto
   \<and> convertAnthropicToolChoice None = None
   \<and> (convertAnthropicToGemini enc r = Success g \<and> ar_tools r = Some ts \<and> ts \<noteq> []
        \<and> ar_tool_choice r = None
      \<longrightarrow> gr_tools g = Some (convertAnthropicToolsToGemini ts) \<and> gr_tool_choice g = None)"
proof -
  have "gr_tools g = Some (convertAnthropicToolsToGemini ts) \<and> gr_tool_choice g = None"
    if "convertAnthropicToGemini enc r = Success g" "ar_tools r = Some ts" "ts \<noteq> []"
       "ar_tool_choice r = None"
    using that
    by (auto simp: convertAnthropicToGemini_def Let_def convertAnthropicToolsToGemini_def
             split: option.splits messages_field.splits)
  then show ?thesis by simp
qed

theorem convertAnthropicToolChoice_mapping_witness:
  "convertAnthropicToolChoice (Some (ChoiceObject ''tool'' ''calculator''))
     = Some (choice_function ''calculator'')
   \<and> (\<exists>g. convertAnthropicToGemini sample_encoder
             ((example_request ''claude-3-sonnet'' [user_text ''Calculate 2+2''])
                \<lparr>ar_tools := Some [calculator_tool]\<rparr>) = Success g
          \<and> gr_tools g = Some (convertAnthropicToolsToGemini [calculator_tool])
          \<and> gr_tool_choice g = None)"
proof -
  let ?r = "(example_request ''claude-3-sonnet'' [user_text ''Calculate 2+2''])
                \<lparr>ar_tools := Some [calculator_tool]\<rparr>"
  obtain g where g: "convertAnthropicToGemini sample_encoder ?r = Success g"
    using convertAnthropicToGemini_total [of ?r "''claude-3-sonnet''" "[user_text ''Calculate 2+2'']" sample_encoder]
    by (auto simp: example_request_def)
  have "ar_tools ?r = Some [calculator_tool]" "ar_tool_choice ?r = None"
    by (simp_all add: example_request_def)
  with g convertAnthropicToolChoice_mapping [of "''calculator''" sample_encoder ?r g "[calculator_tool]"]
  show ?thesis by auto
qed

text \<open>
  Claim C10: an explicit \<open>max_tokens\<close> of 0 is replaced by the default 1024, as an absent
  one is; an explicit \<open>temperature\<close> of 0 is kept, and only an absent temperature becomes
  0.7.
\<close>

theorem scalar_defaults:
  assumes "ar_model r = Some m" and "ar_messages r = MessagesArray ms"
  shows "\<exists>g. convertAnthropicToGemini enc r = Success g
           \<and> (ar_max_tokens r = Some 0 \<longrightarrow> gr_max_tokens g = Some 1024)
           \<and> (ar_max_tokens r = None \<longrightarrow> gr_max_tokens g = Some 1024)
           \<and> (ar_temperature r = Some 0 \<longrightarrow> gr_temperature g = Some 0)
           \<and> (ar_temperature r = None \<longrightarrow> gr_temperature g = Some 0.7)
           \<and> (\<forall>t. ar_temperature r = Some t \<longrightarrow> gr_temperature g = Some t)"
  using assms by (simp add: convertAnthropicToGemini_def Let_def)

theorem scalar_defaults_witness:
  "\<exists>g. convertAnthropicToGemini sample_encoder
          ((example_request ''claude-3-sonnet'' [user_text ''Hello''])
             \<lparr>ar_max_tokens := Some 0, ar_temperature := Some 0\<rparr>) = Success g
       \<and> gr_max_tokens g = Some 1024 \<and> gr_temperature g = Some 0"
  using scalar_defaults
     [of "(example_request ''claude-3-sonnet'' [user_text ''Hello''])
             \<lparr>ar_max_tokens := Some 0, ar_temperature := Some 0\<rparr>"
         "''claude-3-sonnet''" "[user_text ''Hello'']" sample_encoder]
  by (simp add: example_request_def)

section \<open>Properties of the response translator\<close>

lemma tool_use_blocks_first_failure:
  assumes "\<forall>tc \<in> set ok. \<exists>v. parse (or_default (tc_arguments tc) ''{}'') = Inr v"
    and "parse (or_default (tc_arguments bad) ''{}'') = Inl msg"
  shows "tool_use_blocks parse (ok @ bad # rest) = Inl msg"
  using assms by (induction ok) auto

lemma tool_use_blocks_ok:
  "\<forall>tc \<in> set tcs. parse (or_default (tc_arguments tc) ''{}'') = Inr (f tc)
     \<Longrightarrow> tool_use_blocks parse tcs = Inr (map (\<lambda>tc. tool_use_block tc (f tc)) tcs)"
  by (induction tcs) (auto split: sum.splits)

text \<open>
  Claim C1, as stated: a tool call whose argument text is not valid JSON still gives a
  success result, with a \<open>tool_use\<close> block whose input is the empty object. At the
  argument text \<open>{not json\<close> the translation does not return a success result: the
  \<open>SyntaxError\<close> of \<open>JSON.parse\<close> reaches the \<open>catch\<close> of \<open>convertGeminiToAnthropic\<close>.
\<close>

theorem malformed_arguments_fail_translation:
  "\<not> success
      (convertGeminiToAnthropic sample_json_decoder ''msg_1'' (tool_call_response ''{not json'')
         (example_request ''claude-3-sonnet'' [user_text ''Calculate 1+2'']))"
  by (simp add: convertGeminiToAnthropic_def tool_call_response_def calculator_call_def
      sample_json_decoder_def or_default_def)

text \<open>
  Claim C1, amended: for a response without an error object whose first choice carries
  tool calls, let \<open>bad\<close> be the first call, in the order of the list, whose argument text
  \<open>JSON.parse\<close> rejects (the calls before it decode), let its argument text be not empty
  and \<open>msg\<close> the message of the \<open>SyntaxError\<close>: then \<open>convertGeminiToAnthropic\<close>
  returns the failure result whose message is \<open>Response conversion failed: \<close> followed by
  \<open>msg\<close>, whatever calls follow. Only an empty argument text is replaced (by \<open>{}\<close>): when
  all argument texts are empty the result is a success whose content starts with one
  \<open>tool_use\<close> block per call, each with the empty object as input.
\<close>

theorem tool_arguments_decoding:
  assumes "gp_error resp = None"
    and "first_choice (gp_choices resp) = Some choice"
    and "gc_message choice = Some m"
    and "cm_tool_calls m = Some tcs"
  shows "(tcs = ok @ bad # rest
          \<and> (\<forall>tc \<in> set ok. \<exists>v. parse (or_default (tc_arguments tc) ''{}'') = Inr v)
          \<and> tc_arguments bad \<noteq> [] \<and> parse (tc_arguments bad) = Inl msg \<longrightarrow>
            convertGeminiToAnthropic parse msg_id resp req
              = Failure (''Response conversion failed: '' @ msg))
       \<and> ((\<forall>tc \<in> set tcs. tc_arguments tc = []) \<and> parse ''{}'' = Inr (JObject []) \<longrightarrow>
            (\<exists>r. convertGeminiToAnthropic parse msg_id resp req = Success r
                \<and> take (length tcs) (rs_content r)
                    = map (\<lambda>tc. tool_use_block tc (JObject [])) tcs))"
proof (intro conjI impI)
  assume a: "tcs = ok @ bad # rest
          \<and> (\<forall>tc \<in> set ok. \<exists>v. parse (or_default (tc_arguments tc) ''{}'') = Inr v)
          \<and> tc_arguments bad \<noteq> [] \<and> parse (tc_arguments bad) = Inl msg"
  then have "parse (or_default (tc_arguments bad) ''{}'') = Inl msg"
    by (simp add: or_default_def)
  then have "tool_use_blocks parse (ok @ bad # rest) = Inl msg"
    using a tool_use_blocks_first_failure [of ok parse bad msg rest] by blast
  then have "tool_use_blocks parse tcs = Inl msg" using a by simp
  then show "convertGeminiToAnthropic parse msg_id resp req
               = Failure (''Response conversion failed: '' @ msg)"
    using assms by (simp add: convertGeminiToAnthropic_def)
next
  assume a: "(\<forall>tc \<in> set tcs. tc_arguments tc = []) \<and> parse ''{}'' = Inr (JObject [])"
  then have "\<forall>tc \<in> set tcs. parse (or_default (tc_arguments tc) ''{}'')
               = Inr ((\<lambda>tc. JObject []) tc)"
    by (auto simp: or_default_def)
  then have "tool_use_blocks parse tcs = Inr (map (\<lambda>tc. tool_use_block tc (JObject [])) tcs)"
    by (rule tool_use_blocks_ok)
  then show "\<exists>r. convertGeminiToAnthropic parse msg_id resp req = Success r
                \<and> take (length tcs) (rs_content r)
                    = map (\<lambda>tc. tool_use_block tc (JObject [])) tcs"
    using assms by (cases tcs) (auto simp: convertGeminiToAnthropic_def Let_def)
qed

theorem tool_arguments_decoding_witness:
  "(\<exists>msg. sample_json_decoder ''{not json'' = Inl msg
       \<and> convertGeminiToAnthropic sample_json_decoder ''msg_1'' (tool_call_response ''{not json'')
            (example_request ''claude-3-sonnet'' [user_text ''Calculate 1+2''])
          = Failure (''Response conversion failed: '' @ msg))
   \<and> (\<exists>r. convertGeminiToAnthropic sample_json_decoder ''msg_1'' (tool_call_response [])
            (example_request ''claude-3-sonnet'' [user_text ''Calculate 1+2'']) = Success r
          \<and> take 1 (rs_content r) = [tool_use_block (calculator_call []) (JObject [])])"
  using tool_arguments_decoding
          [where resp = "tool_call_response ''{not json''" and tcs = "[calculator_call ''{not json'']"
             and ok = "[]" and bad = "calculator_call ''{not json''" and rest = "[]"
             and parse = sample_json_decoder and msg_id = "''msg_1''"
             and req = "example_request ''claude-3-sonnet'' [user_text ''Calculate 1+2'']"]
        tool_arguments_decoding
          [where resp = "tool_call_response []" and tcs = "[calculator_call []]"
             and parse = sample_json_decoder and msg_id = "''msg_1''"
             and req = "example_request ''claude-3-sonnet'' [user_text ''Calculate 1+2'']"]
  by (simp add: tool_call_response_def sample_json_decoder_def calculator_call_def)

text \<open>
  Claim C2: for a request that is a single user message with plain text \<open>T\<close> and a
  non-empty model \<open>M\<close>, if the request translates and the backend answers with a single
  choice whose message has the text \<open>T\<close>, no tool calls and finish reason \<open>stop\<close>, then
  the response translates to a success whose content is the one block
  \<open>{type: text, text: T}\<close>, whose stop reason is \<open>end_turn\<close> and whose model is \<open>M\<close>.
\<close>

theorem text_round_trip:
  assumes "ar_model req = Some M" and "M \<noteq> []"
    and "ar_messages req = MessagesArray [\<lparr>am_role = Some ''user'', am_content = PlainText T\<rparr>]"
    and "convertAnthropicToGemini enc req = Success greq"
    and "gp_error resp = None"
    and "gp_choices resp = Some [choice]"
    and "gc_message choice = Some m"
    and "cm_content m = Some T"
    and "cm_tool_calls m = None \<or> cm_tool_calls m = Some []"
    and "gc_finish_reason choice = Some ''stop''"
  shows "\<exists>r. convertGeminiToAnthropic parse msg_id resp req = Success r
           \<and> rs_content r = [text_block T]
           \<and> rs_stop_reason r = end_turn
           \<and> rs_model r = Some M"
  using assms
  by (auto simp: convertGeminiToAnthropic_def Let_def map_finish_reason_def)

theorem text_round_trip_witness:
  "\<exists>g r. convertAnthropicToGemini sample_encoder
            (example_request ''claude-3-sonnet'' [user_text ''Hello!'']) = Success g
        \<and> gr_model g = ModelString ''google/gemini-2.5-flash''
        \<and> convertGeminiToAnthropic sample_json_decoder ''msg_1'' (text_response ''Hello!'')
            (example_request ''claude-3-sonnet'' [user_text ''Hello!'']) = Success r
        \<and> rs_content r = [text_block ''Hello!'']
        \<and> rs_stop_reason r = end_turn
        \<and> rs_model r = Some ''claude-3-sonnet''"
proof -
  let ?req = "example_request ''claude-3-sonnet'' [user_text ''Hello!'']"
  obtain g where g: "convertAnthropicToGemini sample_encoder ?req = Success g"
    using convertAnthropicToGemini_total [of ?req "''claude-3-sonnet''" _ sample_encoder]
    by (auto simp: example_request_def)
  then have gm: "gr_model g = ModelString ''google/gemini-2.5-flash''"
    by (auto simp: convertAnthropicToGemini_def example_request_def Let_def getGeminiModel_def
        property_lookup_def MODEL_MAPPING_def)
  from text_round_trip
         [of ?req "''claude-3-sonnet''" "''Hello!''" sample_encoder g "text_response ''Hello!''"
             _ _ sample_json_decoder "''msg_1''"] g
  have "\<exists>r. convertGeminiToAnthropic sample_json_decoder ''msg_1'' (text_response ''Hello!'') ?req
              = Success r
           \<and> rs_content r = [text_block ''Hello!'']
           \<and> rs_stop_reason r = end_turn
           \<and> rs_model r = Some ''claude-3-sonnet''"
    by (simp add: example_request_def user_text_def text_response_def)
  with g gm show ?thesis by blast
qed

section \<open>Properties of the stream translator\<close>

subsection \<open>Splitting the buffer into lines\<close>

lemma split_newline_nonempty [simp]: "split_newline s \<noteq> []"
  by (induction s) auto

lemma split_newline_no_newline:
  "CHR ''\<newline>'' \<notin> set s \<Longrightarrow> split_newline s = [s]"
  by (induction s) auto

lemma split_newline_line:
  "CHR ''\<newline>'' \<notin> set l \<Longrightarrow> split_newline (l @ CHR ''\<newline>'' # rest) = l # split_newline rest"
  by (induction l) auto

lemma split_newline_blank:
  "set g \<subseteq> {CHR ''\<newline>''} \<Longrightarrow> split_newline (g @ rest) = replicate (length g) [] @ split_newline rest"
  by (induction g) auto

lemma last_split_newline_no_newline:
  "CHR ''\<newline>'' \<notin> set (last (split_newline s))"
proof (induction s)
  case Nil then show ?case by simp
next
  case (Cons c s)
  show ?case
  proof (cases "tl (split_newline s) = []")
    case True
    then have "split_newline s = [hd (split_newline s)]"
      by (metis list.collapse split_newline_nonempty)
    then have "last (split_newline s) = hd (split_newline s)" by (metis last.simps)
    then show ?thesis using Cons True by auto
  next
    case False
    then have "last (split_newline s) = last (tl (split_newline s))"
      by (metis last_tl split_newline_nonempty)
    then show ?thesis using Cons False by auto
  qed
qed

lemma split_newline_append:
  "split_newline (a @ b) = butlast (split_newline a) @ split_newline (last (split_newline a) @ b)"
proof (induction a)
  case Nil then show ?case by simp
next
  case (Cons c a)
  show ?case
  proof (cases "c = CHR ''\<newline>''")
    case True then show ?thesis using Cons by simp
  next
    case False
    show ?thesis
    proof (cases "tl (split_newline a) = []")
      case True
      then have sa: "split_newline a = [hd (split_newline a)]"
        by (metis list.collapse split_newline_nonempty)
      then have bl: "butlast (split_newline a) = []" and la: "last (split_newline a) = hd (split_newline a)"
        by (metis butlast.simps(2), metis last.simps)
      have "split_newline (c # a) = [c # hd (split_newline a)]" using False True by simp
      then show ?thesis using Cons False bl la by simp
    next
      case F2: False
      obtain x y ys where sa: "split_newline a = x # y # ys"
        using F2 by (metis list.collapse split_newline_nonempty list.sel(3))
      have "butlast (split_newline a) \<noteq> []" using sa by simp
      then have hb: "hd (butlast (split_newline a) @ zs) = hd (split_newline a)"
        and tb: "tl (butlast (split_newline a) @ zs) = tl (butlast (split_newline a)) @ zs" for zs
        using sa by simp_all
      have lc: "last (split_newline (c # a)) = last (split_newline a)"
        using False sa by simp
      have bc: "butlast (split_newline (c # a)) = (c # x) # butlast (y # ys)"
        using False sa by simp
      show ?thesis
        using False Cons sa lc bc hb tb by simp
    qed
  qed
qed

lemma last_split_newline_append:
  "last (split_newline (x @ y)) = last (split_newline (last (split_newline x) @ y))"
  by (simp add: split_newline_append [of x y])

lemma line_start_pending:
  assumes "s = [] \<or> last s = CHR ''\<newline>''"
  shows "last (split_newline s) = []"
proof (cases "s = []")
  case True then show ?thesis by simp
next
  case False
  then have "s = butlast s @ [CHR ''\<newline>'']" using assms by (metis append_butlast_last_id)
  then have "last (split_newline s)
      = last (split_newline (last (split_newline (butlast s)) @ [CHR ''\<newline>'']))"
    using last_split_newline_append [of "butlast s" "[CHR ''\<newline>'']"] by simp
  moreover have "split_newline (last (split_newline (butlast s)) @ CHR ''\<newline>'' # [])
      = [last (split_newline (butlast s)), []]"
    using split_newline_line [OF last_split_newline_no_newline, of "butlast s" "[]"] by simp
  ultimately show ?thesis by simp
qed

lemma split_line_gap:
  assumes "CHR ''\<newline>'' \<notin> set l" and "set g \<subseteq> {CHR ''\<newline>''}"
  shows "split_newline (l @ ''\<newline>'' @ g @ rest) = l # replicate (length g) [] @ split_newline rest"
proof -
  have "split_newline (l @ ''\<newline>'' @ g @ rest) = l # split_newline (g @ rest)"
    using split_newline_line [OF assms(1), of "g @ rest"] by simp
  then show ?thesis using split_newline_blank [OF assms(2), of rest] by simp
qed

lemma split_sse_record:
  "CHR ''\<newline>'' \<notin> set d \<Longrightarrow> split_newline (sse_record d @ rest) = (''data: '' @ d) # [] # split_newline rest"
  using split_newline_line [of "''data: '' @ d" "CHR ''\<newline>'' # rest"]
  by (simp add: sse_record_def)

lemma no_newline_payloads:
  "CHR ''\<newline>'' \<notin> set hello_payload" "CHR ''\<newline>'' \<notin> set there_payload"
  "CHR ''\<newline>'' \<notin> set finish_payload" "CHR ''\<newline>'' \<notin> set ''[DONE]''"
  by (simp_all add: hello_payload_def there_payload_def finish_payload_def)

subsection \<open>The lines of one read, and the read loop\<close>

lemma startsWith_data: "startsWith l ''data: '' \<longleftrightarrow> take 6 l = ''data: ''"
proof -
  have "length ''data: '' = 6" by simp
  then show ?thesis unfolding startsWith_def by metis
qed

lemma is_done_line:
  "(startsWith l ''data: '' \<and> drop 6 l = ''[DONE]'') \<longleftrightarrow> l = ''data: [DONE]''"
proof
  assume a: "startsWith l ''data: '' \<and> drop 6 l = ''[DONE]''"
  then have "take 6 l = ''data: ''" by (simp add: startsWith_data)
  then have "l = ''data: '' @ drop 6 l" by (metis append_take_drop_id)
  then show "l = ''data: [DONE]''" using a by simp
next
  assume "l = ''data: [DONE]''" then show "startsWith l ''data: '' \<and> drop 6 l = ''[DONE]''"
    by (simp add: startsWith_data)
qed

lemma process_lines_inert:
  "\<forall>x \<in> set ls. \<not> startsWith x ''data: '' \<Longrightarrow> process_lines parse req ls = []"
  by (induction ls) auto

lemma inert_done_then_inert:
  "\<forall>x \<in> set ls. \<not> startsWith x ''data: '' \<Longrightarrow> done_then_inert ls"
  by (induction ls) (auto simp: startsWith_data)

lemma done_then_inert_suffix: "done_then_inert (A @ B) \<Longrightarrow> done_then_inert B"
  by (induction A) (auto simp: inert_done_then_inert split: if_splits)

lemma process_lines_append:
  "done_then_inert (A @ B) \<Longrightarrow>
     process_lines parse req (A @ B) = process_lines parse req A @ process_lines parse req B"
proof (induction A)
  case Nil then show ?case by simp
next
  case (Cons l A)
  show ?case
  proof (cases "l = ''data: [DONE]''")
    case True
    then have "\<forall>x \<in> set B. \<not> startsWith x ''data: ''" using Cons.prems by simp
    then have "process_lines parse req B = []" by (rule process_lines_inert)
    then show ?thesis using True by (simp add: startsWith_data)
  next
    case False
    then have n: "\<not> (startsWith l ''data: '' \<and> drop 6 l = ''[DONE]'')"
      by (simp add: is_done_line)
    have "done_then_inert (A @ B)" using Cons.prems False by simp
    then have "process_lines parse req (A @ B) = process_lines parse req A @ process_lines parse req B"
      by (rule Cons.IH)
    then show ?thesis using n by auto
  qed
qed

lemma read_loop_whole_text:
  "CHR ''\<newline>'' \<notin> set buf \<Longrightarrow>
   done_then_inert (butlast (split_newline (buf @ concat vs))) \<Longrightarrow>
   read_loop parse req buf vs = process_lines parse req (butlast (split_newline (buf @ concat vs)))"
proof (induction vs arbitrary: buf)
  case Nil
  then show ?case by (simp add: split_newline_no_newline)
next
  case (Cons v vs)
  let ?A = "butlast (split_newline (buf @ v))"
  let ?b = "last (split_newline (buf @ v))"
  let ?B = "butlast (split_newline (?b @ concat vs))"
  have sp: "split_newline (buf @ concat (v # vs)) = ?A @ split_newline (?b @ concat vs)"
    using split_newline_append [of "buf @ v" "concat vs"] by simp
  then have bl: "butlast (split_newline (buf @ concat (v # vs))) = ?A @ ?B"
    by (simp add: butlast_append)
  have nb: "CHR ''\<newline>'' \<notin> set ?b" by (rule last_split_newline_no_newline)
  have d: "done_then_inert (?A @ ?B)" using Cons.prems(2) bl by simp
  then have "done_then_inert ?B" by (rule done_then_inert_suffix)
  then have "read_loop parse req ?b vs = process_lines parse req ?B"
    using Cons.IH nb by blast
  then show ?case using bl process_lines_append [OF d] by simp
qed

lemma truthy_or_empty: "truthy x \<longleftrightarrow> or_empty x \<noteq> []"
  by (cases x) auto

lemma convert_text_chunk:
  "first_choice (sc_choices c) = Some ch \<Longrightarrow> carries_text ch t \<Longrightarrow>
     convertGeminiStreamChunk c req = Some (text_delta_event t)"
  by (auto simp: convertGeminiStreamChunk_def carries_text_def split: option.splits)

lemma convert_finish_chunk:
  "first_choice (sc_choices c) = Some ch \<Longrightarrow> only_finish_reason ch \<Longrightarrow>
     convertGeminiStreamChunk c req = Some message_stop_event"
  by (cases "gc_delta ch"; cases "gc_finish_reason ch")
     (auto simp: convertGeminiStreamChunk_def only_finish_reason_def Let_def truthy_or_empty
           split: option.splits list.splits)

lemma process_lines_blank:
  "process_lines parse req (replicate n [] @ ls) = process_lines parse req ls"
  by (induction n) (auto simp: startsWith_data)

lemma process_data_line:
  "d \<noteq> ''[DONE]'' \<Longrightarrow> parse d = Some c \<Longrightarrow> convertGeminiStreamChunk c req = Some e \<Longrightarrow>
     process_lines parse req ((''data: '' @ d) # ls) = e # process_lines parse req ls"
  by (simp add: startsWith_data)

lemma process_done_line:
  "process_lines parse req (''data: [DONE]'' # ls) = [message_stop_event]"
  by (simp add: startsWith_data)

lemma done_then_inert_blank:
  "done_then_inert (replicate n [] @ ls) = done_then_inert ls"
  by (induction n) auto

lemma read_loop_append:
  "CHR ''\<newline>'' \<notin> set buf \<Longrightarrow>
   read_loop parse req buf (xs @ ys)
     = read_loop parse req buf xs
       @ read_loop parse req (last (split_newline (buf @ concat xs))) ys"
proof (induction xs arbitrary: buf)
  case Nil
  then show ?case by (simp add: split_newline_no_newline)
next
  case (Cons v xs)
  have l: "last (split_newline ((buf @ v) @ concat xs))
          = last (split_newline (last (split_newline (buf @ v)) @ concat xs))"
    by (rule last_split_newline_append)
  have "CHR ''\<newline>'' \<notin> set (last (split_newline (buf @ v)))"
    by (rule last_split_newline_no_newline)
  then show ?case using Cons.IH [of "last (split_newline (buf @ v))"] l by simp
qed

lemma process_lines_skip:
  assumes "parse bad = None" and "bad \<noteq> ''[DONE]''"
  shows "process_lines parse req (X @ (''data: '' @ bad) # Y) = process_lines parse req (X @ Y)"
proof (induction X)
  case Nil
  show ?case using assms by (simp add: startsWith_data)
next
  case (Cons x X)
  then show ?case by simp
qed

lemma read_loop_no_newline:
  "CHR ''\<newline>'' \<notin> set (buf @ concat ms) \<Longrightarrow> read_loop parse req buf ms = []"
proof -
  assume a: "CHR ''\<newline>'' \<notin> set (buf @ concat ms)"
  then have s: "split_newline (buf @ concat ms) = [buf @ concat ms]"
    by (rule split_newline_no_newline)
  have "CHR ''\<newline>'' \<notin> set buf" using a by simp
  moreover have "done_then_inert (butlast (split_newline (buf @ concat ms)))"
    unfolding s by simp
  ultimately have "read_loop parse req buf ms
      = process_lines parse req (butlast (split_newline (buf @ concat ms)))"
    by (rule read_loop_whole_text)
  then show ?thesis unfolding s by simp
qed

lemma read_step_single:
  assumes "parse bad = None" and "bad \<noteq> ''[DONE]''" and "CHR ''\<newline>'' \<notin> set bad"
    and "last (split_newline (buf @ a)) = []"
  shows "read_loop parse req buf ((a @ ''data: '' @ bad @ ''\<newline>'' @ b) # rest)
           = read_loop parse req buf ((a @ b) # rest)"
proof -
  define l where "l = ''data: '' @ bad"
  have nl: "CHR ''\<newline>'' \<notin> set l" using assms(3) by (simp add: l_def)
  have sl: "split_newline (l @ CHR ''\<newline>'' # b) = l # split_newline b"
    using nl by (rule split_newline_line)
  have w: "split_newline ((buf @ a) @ (l @ CHR ''\<newline>'' # b))
             = butlast (split_newline (buf @ a)) @ l # split_newline b"
    unfolding split_newline_append [of "buf @ a" "l @ CHR ''\<newline>'' # b"] assms(4) append_Nil sl
    by (rule refl)
  have wo: "split_newline ((buf @ a) @ b) = butlast (split_newline (buf @ a)) @ split_newline b"
    unfolding split_newline_append [of "buf @ a" b] assms(4) append_Nil by (rule refl)
  have e1: "buf @ a @ ''data: '' @ bad @ ''\<newline>'' @ b = (buf @ a) @ (l @ CHR ''\<newline>'' # b)"
    by (simp add: l_def)
  have e2: "buf @ a @ b = (buf @ a) @ b" by simp
  have bw: "butlast (split_newline ((buf @ a) @ (l @ CHR ''\<newline>'' # b)))
              = butlast (split_newline (buf @ a)) @ l # butlast (split_newline b)"
    unfolding w by (simp add: butlast_append)
  have lw: "last (split_newline ((buf @ a) @ (l @ CHR ''\<newline>'' # b))) = last (split_newline b)"
    unfolding w by simp
  have bwo: "butlast (split_newline ((buf @ a) @ b))
              = butlast (split_newline (buf @ a)) @ butlast (split_newline b)"
    unfolding wo by (simp add: butlast_append)
  have lwo: "last (split_newline ((buf @ a) @ b)) = last (split_newline b)"
    unfolding wo by simp
  have sk: "process_lines parse req (butlast (split_newline (buf @ a)) @ l # butlast (split_newline b))
      = process_lines parse req (butlast (split_newline (buf @ a)) @ butlast (split_newline b))"
    unfolding l_def using assms(1,2) by (rule process_lines_skip)
  show ?thesis
    unfolding read_loop.simps e1 e2 bw lw bwo lwo sk by (rule refl)
qed

lemma read_step_spanning:
  assumes "parse bad = None" and "bad \<noteq> ''[DONE]''" and "CHR ''\<newline>'' \<notin> set bad"
    and "last (split_newline (buf @ a)) = []"
    and "p0 @ concat ms @ pk = ''data: '' @ bad @ ''\<newline>''" and "pk \<noteq> []"
  shows "read_loop parse req buf ((a @ p0) # ms @ (pk @ b) # rest)
           = read_loop parse req buf (a # b # rest)"
proof -
  define l where "l = ''data: '' @ bad"
  have nl: "CHR ''\<newline>'' \<notin> set l" using assms(3) by (simp add: l_def)
  have L: "p0 @ concat ms @ pk = l @ [CHR ''\<newline>'']" using assms(5) by (simp add: l_def)
  have "last pk = CHR ''\<newline>''" using L assms(6) by (metis append_assoc last_appendR last_snoc)
  then have pk: "pk = butlast pk @ [CHR ''\<newline>'']" using assms(6) by (metis append_butlast_last_id)
  then have "(p0 @ concat ms @ butlast pk) @ [CHR ''\<newline>''] = l @ [CHR ''\<newline>'']"
    using L by (metis append_assoc)
  then have l_eq: "p0 @ concat ms @ butlast pk = l" by simp
  have n0: "CHR ''\<newline>'' \<notin> set (p0 @ concat ms)" using nl l_eq by (metis Un_iff set_append append_assoc)
  have np: "CHR ''\<newline>'' \<notin> set p0" using n0 by simp
  have s1: "split_newline ((buf @ a) @ p0) = butlast (split_newline (buf @ a)) @ [p0]"
    unfolding split_newline_append [of "buf @ a" p0] assms(4) append_Nil
      split_newline_no_newline [OF np] by (rule refl)
  have b1: "butlast (split_newline (buf @ (a @ p0))) = butlast (split_newline (buf @ a))"
    and l1: "last (split_newline (buf @ (a @ p0))) = p0"
    using s1 by (simp_all add: butlast_append)
  have mid: "read_loop parse req p0 (ms @ (pk @ b) # rest)
      = read_loop parse req p0 ms
        @ read_loop parse req (last (split_newline (p0 @ concat ms))) ((pk @ b) # rest)"
    using np by (rule read_loop_append)
  have m0: "read_loop parse req p0 ms = []" using n0 by (rule read_loop_no_newline)
  have pend: "last (split_newline (p0 @ concat ms)) = p0 @ concat ms"
    using split_newline_no_newline [OF n0] by simp
  have e3: "(p0 @ concat ms) @ pk @ b = l @ CHR ''\<newline>'' # b"
    using L by (metis append_assoc append_Cons append_Nil)
  have s3: "split_newline ((p0 @ concat ms) @ pk @ b) = l # split_newline b"
    unfolding e3 using nl by (rule split_newline_line)
  have sk: "process_lines parse req (l # butlast (split_newline b))
              = process_lines parse req (butlast (split_newline b))"
    using process_lines_skip [of parse bad req "[]" "butlast (split_newline b)"] assms(1,2)
    by (simp add: l_def)
  have last3: "read_loop parse req (p0 @ concat ms) ((pk @ b) # rest)
      = process_lines parse req (butlast (split_newline b))
        @ read_loop parse req (last (split_newline b)) rest"
    unfolding read_loop.simps s3 using sk by simp
  have lhs: "read_loop parse req buf ((a @ p0) # ms @ (pk @ b) # rest)
      = process_lines parse req (butlast (split_newline (buf @ a)))
        @ process_lines parse req (butlast (split_newline b))
        @ read_loop parse req (last (split_newline b)) rest"
    unfolding read_loop.simps(2) [of parse req buf "a @ p0"] b1 l1 mid m0 pend last3 by simp
  have rhs: "read_loop parse req buf (a # b # rest)
      = process_lines parse req (butlast (split_newline (buf @ a)))
        @ process_lines parse req (butlast (split_newline b))
        @ read_loop parse req (last (split_newline b)) rest"
    by (simp add: assms(4))
  show ?thesis unfolding lhs rhs by (rule refl)
qed

lemma pending_at_line_start:
  assumes "concat vs1 @ a = [] \<or> last (concat vs1 @ a) = CHR ''\<newline>''"
  shows "last (split_newline (last (split_newline ([] @ concat vs1)) @ a)) = []"
proof -
  have "last (split_newline (concat vs1 @ a)) = []" using assms by (rule line_start_pending)
  then show ?thesis using last_split_newline_append [of "concat vs1" a] by simp
qed

lemma clean_stream_events:
  "written (processGeminiStream sample_chunk_decoder
      (Some \<lparr>rb_values = [sse_record hello_payload @ sse_record there_payload],
             rb_end = stream_done\<rparr>) new_writer req)
     = [text_delta_event ''Hello'', text_delta_event '' there'']"
  "written (processGeminiStream sample_chunk_decoder
      (Some \<lparr>rb_values = [sse_record hello_payload, sse_record there_payload],
             rb_end = stream_done\<rparr>) new_writer req)
     = [text_delta_event ''Hello'', text_delta_event '' there'']"
proof -
  have s1: "split_newline (sse_record hello_payload @ sse_record there_payload)
      = [''data: '' @ hello_payload, [], ''data: '' @ there_payload, [], []]"
    using split_sse_record [of hello_payload "sse_record there_payload"]
      split_sse_record [of there_payload "[]"] no_newline_payloads by simp
  have s2: "split_newline (sse_record hello_payload) = [''data: '' @ hello_payload, [], []]"
    "split_newline (sse_record there_payload) = [''data: '' @ there_payload, [], []]"
    using split_sse_record [of hello_payload "[]"] split_sse_record [of there_payload "[]"]
      no_newline_payloads by simp_all
  have d: "hello_payload \<noteq> ''[DONE]''" "there_payload \<noteq> ''[DONE]''"
    by (simp_all add: hello_payload_def there_payload_def)
  have p: "sample_chunk_decoder hello_payload = Some (content_chunk ''Hello'')"
     "sample_chunk_decoder there_payload = Some (content_chunk '' there'')"
    by (simp_all add: sample_chunk_decoder_def hello_payload_def there_payload_def)
  have c: "convertGeminiStreamChunk (content_chunk ''Hello'') req = Some (text_delta_event ''Hello'')"
    "convertGeminiStreamChunk (content_chunk '' there'') req = Some (text_delta_event '' there'')"
    by (simp_all add: convertGeminiStreamChunk_def content_chunk_def)
  show "written (processGeminiStream sample_chunk_decoder
      (Some \<lparr>rb_values = [sse_record hello_payload @ sse_record there_payload],
             rb_end = stream_done\<rparr>) new_writer req)
     = [text_delta_event ''Hello'', text_delta_event '' there'']"
    using d by (simp add: processGeminiStream_def new_writer_def s1 startsWith_data p c)
  show "written (processGeminiStream sample_chunk_decoder
      (Some \<lparr>rb_values = [sse_record hello_payload, sse_record there_payload],
             rb_end = stream_done\<rparr>) new_writer req)
     = [text_delta_event ''Hello'', text_delta_event '' there'']"
    using d by (simp add: processGeminiStream_def new_writer_def s2 startsWith_data p c)
qed

subsection \<open>The claims on streams\<close>

text \<open>
  Claim C3: fed the complete data lines of two chunks whose first choice carries a
  non-empty text, then of a chunk whose first choice carries only a finish reason, then
  \<open>data: [DONE]\<close> (each line followed by any number of blank lines, the text cut into
  reads at any places), the stream translator writes exactly four events, in this order:
  the two text deltas at index 0, the \<open>message_stop\<close> of the finish reason and the
  \<open>message_stop\<close> of the terminator.
\<close>

theorem two_deltas_finish_and_DONE:
  assumes "parse d1 = Some c1" and "first_choice (sc_choices c1) = Some ch1"
    and "carries_text ch1 t1"
    and "parse d2 = Some c2" and "first_choice (sc_choices c2) = Some ch2"
    and "carries_text ch2 t2"
    and "parse d3 = Some c3" and "first_choice (sc_choices c3) = Some ch3"
    and "only_finish_reason ch3"
    and "d1 \<noteq> ''[DONE]''" and "d2 \<noteq> ''[DONE]''" and "d3 \<noteq> ''[DONE]''"
    and "CHR ''\<newline>'' \<notin> set d1" and "CHR ''\<newline>'' \<notin> set d2" and "CHR ''\<newline>'' \<notin> set d3"
    and "set g1 \<subseteq> {CHR ''\<newline>''}" and "set g2 \<subseteq> {CHR ''\<newline>''}"
    and "set g3 \<subseteq> {CHR ''\<newline>''}" and "set g4 \<subseteq> {CHR ''\<newline>''}"
    and "concat vs = ''data: '' @ d1 @ ''\<newline>'' @ g1 @ ''data: '' @ d2 @ ''\<newline>'' @ g2
                      @ ''data: '' @ d3 @ ''\<newline>'' @ g3 @ ''data: [DONE]'' @ ''\<newline>'' @ g4"
  shows "written (processGeminiStream parse (Some \<lparr>rb_values = vs, rb_end = stream_done\<rparr>)
                    \<lparr>written = [], closed = False\<rparr> req)
           = [text_delta_event t1, text_delta_event t2, message_stop_event, message_stop_event]"
proof -
  define l1 where "l1 = ''data: '' @ d1"
  define l2 where "l2 = ''data: '' @ d2"
  define l3 where "l3 = ''data: '' @ d3"
  define l4 where "l4 = ''data: [DONE]''"
  define b1 where "b1 = replicate (length g1) ([]::string)"
  define b2 where "b2 = replicate (length g2) ([]::string)"
  define b3 where "b3 = replicate (length g3) ([]::string)"
  define b4 where "b4 = replicate (length g4) ([]::string)"
  have n: "CHR ''\<newline>'' \<notin> set l1" "CHR ''\<newline>'' \<notin> set l2" "CHR ''\<newline>'' \<notin> set l3"
          "CHR ''\<newline>'' \<notin> set l4"
    using assms(13-15) by (simp_all add: l1_def l2_def l3_def l4_def)
  have shape: "concat vs = l1 @ ''\<newline>'' @ g1 @ (l2 @ ''\<newline>'' @ g2 @ (l3 @ ''\<newline>'' @ g3
                 @ (l4 @ ''\<newline>'' @ g4 @ [])))"
    unfolding assms(20) l1_def l2_def l3_def l4_def by simp
  have s4: "split_newline (l4 @ ''\<newline>'' @ g4 @ []) = l4 # b4 @ [[]]"
    using split_line_gap [OF n(4) assms(19), of "[]"] by (simp add: b4_def)
  have s3: "split_newline (l3 @ ''\<newline>'' @ g3 @ (l4 @ ''\<newline>'' @ g4 @ [])) = l3 # b3 @ l4 # b4 @ [[]]"
    unfolding split_line_gap [OF n(3) assms(18)] s4 b3_def by (rule refl)
  have s2: "split_newline (l2 @ ''\<newline>'' @ g2 @ (l3 @ ''\<newline>'' @ g3 @ (l4 @ ''\<newline>'' @ g4 @ [])))
              = l2 # b2 @ l3 # b3 @ l4 # b4 @ [[]]"
    unfolding split_line_gap [OF n(2) assms(17)] s3 b2_def by (rule refl)
  have s1: "split_newline (concat vs) = l1 # b1 @ l2 # b2 @ l3 # b3 @ l4 # b4 @ [[]]"
    unfolding shape split_line_gap [OF n(1) assms(16)] s2 b1_def by (rule refl)
  have "l1 # b1 @ l2 # b2 @ l3 # b3 @ l4 # b4 @ [[]] = (l1 # b1 @ l2 # b2 @ l3 # b3 @ l4 # b4) @ [[]]"
    by simp
  then have bl: "butlast (split_newline ([] @ concat vs)) = l1 # b1 @ l2 # b2 @ l3 # b3 @ l4 # b4"
    using s1 by (simp only: append_Nil butlast_snoc)
  have i4: "done_then_inert (l4 # b4)"
    by (simp add: l4_def b4_def startsWith_data)
  have nd: "l1 \<noteq> ''data: [DONE]''" "l2 \<noteq> ''data: [DONE]''" "l3 \<noteq> ''data: [DONE]''"
    using assms(10-12) by (simp_all add: l1_def l2_def l3_def)
  have i3: "done_then_inert (l3 # b3 @ l4 # b4)"
    using nd(3) i4 by (simp add: b3_def done_then_inert_blank)
  have i2: "done_then_inert (l2 # b2 @ l3 # b3 @ l4 # b4)"
    using nd(2) i3 by (simp add: b2_def done_then_inert_blank)
  have i1: "done_then_inert (l1 # b1 @ l2 # b2 @ l3 # b3 @ l4 # b4)"
    using nd(1) i2 by (simp add: b1_def done_then_inert_blank)
  have e1: "convertGeminiStreamChunk c1 req = Some (text_delta_event t1)"
    using assms(2,3) by (rule convert_text_chunk)
  have e2: "convertGeminiStreamChunk c2 req = Some (text_delta_event t2)"
    using assms(5,6) by (rule convert_text_chunk)
  have e3: "convertGeminiStreamChunk c3 req = Some message_stop_event"
    using assms(8,9) by (rule convert_finish_chunk)
  have p4: "process_lines parse req (l4 # b4) = [message_stop_event]"
    unfolding l4_def by (rule process_done_line)
  have p3: "process_lines parse req (l3 # b3 @ l4 # b4) = [message_stop_event, message_stop_event]"
    unfolding l3_def process_data_line [of d3 parse c3 req message_stop_event, OF assms(12) assms(7) e3] b3_def process_lines_blank
    using p4 by simp
  have p2: "process_lines parse req (l2 # b2 @ l3 # b3 @ l4 # b4)
              = [text_delta_event t2, message_stop_event, message_stop_event]"
    unfolding l2_def process_data_line [of d2 parse c2 req "text_delta_event t2", OF assms(11) assms(4) e2] b2_def process_lines_blank
    using p3 by simp
  have p1: "process_lines parse req (l1 # b1 @ l2 # b2 @ l3 # b3 @ l4 # b4)
              = [text_delta_event t1, text_delta_event t2, message_stop_event, message_stop_event]"
    unfolding l1_def process_data_line [of d1 parse c1 req "text_delta_event t1", OF assms(10) assms(1) e1] b1_def process_lines_blank
    using p2 by simp
  have nl: "CHR ''\<newline>'' \<notin> set ([]::string)" by simp
  have "read_loop parse req [] vs
          = process_lines parse req (butlast (split_newline ([] @ concat vs)))"
    using nl i1 unfolding bl [symmetric] by (rule read_loop_whole_text)
  then have "read_loop parse req [] vs
          = [text_delta_event t1, text_delta_event t2, message_stop_event, message_stop_event]"
    unfolding bl p1 .
  then show ?thesis by (simp add: processGeminiStream_def)
qed

theorem two_deltas_finish_and_DONE_witness:
  "written (processGeminiStream sample_chunk_decoder
              (Some \<lparr>rb_values = test_stream, rb_end = stream_done\<rparr>)
              \<lparr>written = [], closed = False\<rparr>
              (example_request ''claude-3-sonnet'' [user_text ''Hello!'']))
     = [text_delta_event ''Hello'', text_delta_event '' there'', message_stop_event,
        message_stop_event]"
proof -
  have p: "sample_chunk_decoder hello_payload = Some (content_chunk ''Hello'')"
     "sample_chunk_decoder there_payload = Some (content_chunk '' there'')"
     "sample_chunk_decoder finish_payload = Some finish_chunk"
    by (simp_all add: sample_chunk_decoder_def hello_payload_def there_payload_def finish_payload_def)
  have nd: "hello_payload \<noteq> ''[DONE]''" "there_payload \<noteq> ''[DONE]''" "finish_payload \<noteq> ''[DONE]''"
    by (simp_all add: hello_payload_def there_payload_def finish_payload_def)
  have fc: "first_choice (sc_choices (content_chunk t)) =
              Some \<lparr>gc_message = None, gc_delta = Some \<lparr>cd_content = Some t, cd_tool_calls = None\<rparr>,
                    gc_finish_reason = None\<rparr>" for t
    by (simp add: content_chunk_def)
  have ff: "first_choice (sc_choices finish_chunk) =
              Some \<lparr>gc_message = None, gc_delta = None, gc_finish_reason = Some ''stop''\<rparr>"
    by (simp add: finish_chunk_def)
  have ct: "carries_text \<lparr>gc_message = None, gc_delta = Some \<lparr>cd_content = Some ''Hello'', cd_tool_calls = None\<rparr>,
                    gc_finish_reason = None\<rparr> ''Hello''"
      "carries_text \<lparr>gc_message = None, gc_delta = Some \<lparr>cd_content = Some '' there'', cd_tool_calls = None\<rparr>,
                    gc_finish_reason = None\<rparr> '' there''"
    by (simp_all add: carries_text_def)
  have fr: "only_finish_reason \<lparr>gc_message = None, gc_delta = None, gc_finish_reason = Some ''stop''\<rparr>"
    by (simp add: only_finish_reason_def)
  have g: "set ''\<newline>'' \<subseteq> {CHR ''\<newline>''}" by simp
  have cc: "concat test_stream = ''data: '' @ hello_payload @ ''\<newline>'' @ ''\<newline>'' @ ''data: '' @ there_payload @ ''\<newline>'' @ ''\<newline>''
                      @ ''data: '' @ finish_payload @ ''\<newline>'' @ ''\<newline>'' @ ''data: [DONE]'' @ ''\<newline>'' @ ''\<newline>''"
    by (simp add: test_stream_def sse_record_def)
  show ?thesis
    by (rule two_deltas_finish_and_DONE
              [OF p(1) fc ct(1) p(2) fc ct(2) p(3) ff fr nd no_newline_payloads(1-3) g g g g cc])
qed

text \<open>
  Claim C4: after the line \<open>data: [DONE]\<close> the stream translator writes one
  \<open>message_stop\<close> and ends its read loop, so that no event comes from data that arrives
  later. The \<open>break\<close> leaves the \<open>for\<close> loop over the lines of the current read only;
  the \<open>while\<close> loop reads on. When the backend delivers a data record in a read after
  the one with the terminator, its event is written after the \<open>message_stop\<close>.
\<close>

theorem events_after_DONE:
  "written (processGeminiStream sample_chunk_decoder (Some late_data_stream) new_writer
             (example_request ''claude-3-sonnet'' [user_text ''Hi'']))
     = [message_stop_event, text_delta_event ''Hello'']"
proof -
  have s1: "split_newline (sse_record ''[DONE]'') = [''data: [DONE]'', [], []]"
    using split_sse_record [of "''[DONE]''" "[]"] by simp
  have s2: "split_newline (sse_record hello_payload) = [''data: '' @ hello_payload, [], []]"
    using split_sse_record [of hello_payload "[]"] no_newline_payloads by simp
  have d: "hello_payload \<noteq> ''[DONE]''" by (simp add: hello_payload_def)
  have c: "convertGeminiStreamChunk (content_chunk ''Hello'') req = Some (text_delta_event ''Hello'')" for req
    by (simp add: convertGeminiStreamChunk_def content_chunk_def)
  show ?thesis
    using d
    by (simp add: processGeminiStream_def late_data_stream_def new_writer_def s1 s2
        startsWith_data sample_chunk_decoder_def c)
qed

text \<open>
  Claim C9: a data line whose payload \<open>JSON.parse\<close> rejects writes no event, raises no
  error and does not end the stream, and everything else is translated as if the line
  were not there: the writer ends in the same state as for the stream without the
  line. The line starts at the beginning of a line of the stream; it lies within one
  read, or it is cut into a first part, any number of middle reads and a last part.
\<close>

theorem malformed_data_line_is_skipped:
  assumes "parse bad = None" and "bad \<noteq> ''[DONE]''" and "CHR ''\<newline>'' \<notin> set bad"
    and "concat before @ a = [] \<or> last (concat before @ a) = CHR ''\<newline>''"
  shows "processGeminiStream parse
           (Some \<lparr>rb_values = before @ [a @ ''data: '' @ bad @ ''\<newline>'' @ b] @ after, rb_end = e\<rparr>) w req
         = processGeminiStream parse
             (Some \<lparr>rb_values = before @ [a @ b] @ after, rb_end = e\<rparr>) w req
       \<and> (first_part @ concat middle @ last_part = ''data: '' @ bad @ ''\<newline>'' \<and> last_part \<noteq> [] \<longrightarrow>
            processGeminiStream parse
              (Some \<lparr>rb_values = before @ [a @ first_part] @ middle @ [last_part @ b] @ after, rb_end = e\<rparr>) w req
            = processGeminiStream parse
                (Some \<lparr>rb_values = before @ [a, b] @ after, rb_end = e\<rparr>) w req)"
proof (intro conjI impI)
  let ?buf = "last (split_newline ([] @ concat before))"
  have nl: "CHR ''\<newline>'' \<notin> set ([]::string)" by simp
  have ls: "last (split_newline (?buf @ a)) = []"
    using assms(4) by (rule pending_at_line_start)
  have "read_loop parse req ?buf ((a @ ''data: '' @ bad @ ''\<newline>'' @ b) # after)
          = read_loop parse req ?buf ((a @ b) # after)"
    using assms(1-3) ls by (rule read_step_single)
  then have "read_loop parse req [] (before @ (a @ ''data: '' @ bad @ ''\<newline>'' @ b) # after)
          = read_loop parse req [] (before @ (a @ b) # after)"
    unfolding read_loop_append [OF nl] by simp
  then show "processGeminiStream parse
           (Some \<lparr>rb_values = before @ [a @ ''data: '' @ bad @ ''\<newline>'' @ b] @ after, rb_end = e\<rparr>) w req
         = processGeminiStream parse
             (Some \<lparr>rb_values = before @ [a @ b] @ after, rb_end = e\<rparr>) w req"
    by (simp add: processGeminiStream_def)
next
  let ?buf = "last (split_newline ([] @ concat before))"
  assume sp: "first_part @ concat middle @ last_part = ''data: '' @ bad @ ''\<newline>'' \<and> last_part \<noteq> []"
  have nl: "CHR ''\<newline>'' \<notin> set ([]::string)" by simp
  have ls: "last (split_newline (?buf @ a)) = []"
    using assms(4) by (rule pending_at_line_start)
  have "read_loop parse req ?buf ((a @ first_part) # middle @ (last_part @ b) # after)
          = read_loop parse req ?buf (a # b # after)"
    using assms(1-3) ls sp by (blast intro: read_step_spanning)
  then have "read_loop parse req [] (before @ (a @ first_part) # middle @ (last_part @ b) # after)
          = read_loop parse req [] (before @ a # b # after)"
    unfolding read_loop_append [OF nl] by simp
  then show "processGeminiStream parse
              (Some \<lparr>rb_values = before @ [a @ first_part] @ middle @ [last_part @ b] @ after, rb_end = e\<rparr>) w req
            = processGeminiStream parse
                (Some \<lparr>rb_values = before @ [a, b] @ after, rb_end = e\<rparr>) w req"
    by (simp add: processGeminiStream_def)
qed

theorem malformed_data_line_is_skipped_witness:
  "written (processGeminiStream sample_chunk_decoder
      (Some \<lparr>rb_values = [] @ [sse_record hello_payload @ ''data: '' @ ''{not json'' @ ''\<newline>''
                            @ sse_record there_payload] @ [],
             rb_end = stream_done\<rparr>) new_writer
      (example_request ''claude-3-sonnet'' [user_text ''Hi'']))
     = [text_delta_event ''Hello'', text_delta_event '' there'']
   \<and> written (processGeminiStream sample_chunk_decoder
      (Some \<lparr>rb_values = [] @ [sse_record hello_payload @ ''data: {no''] @ [''t js'']
                            @ [(''on'' @ ''\<newline>'') @ sse_record there_payload] @ [],
             rb_end = stream_done\<rparr>) new_writer
      (example_request ''claude-3-sonnet'' [user_text ''Hi'']))
     = [text_delta_event ''Hello'', text_delta_event '' there'']"
proof -
  have h: "sample_chunk_decoder ''{not json'' = None" "''{not json'' \<noteq> ''[DONE]''"
    "CHR ''\<newline>'' \<notin> set ''{not json''"
    "concat [] @ sse_record hello_payload = []
       \<or> last (concat [] @ sse_record hello_payload) = CHR ''\<newline>''"
    by (simp_all add: sample_chunk_decoder_def hello_payload_def there_payload_def
        finish_payload_def sse_record_def)
  have sp: "''data: {no'' @ concat [''t js''] @ (''on'' @ ''\<newline>'') = ''data: '' @ ''{not json'' @ ''\<newline>''
            \<and> ''on'' @ ''\<newline>'' \<noteq> []"
    by simp
  note t = malformed_data_line_is_skipped
         [where parse = sample_chunk_decoder and bad = "''{not json''" and before = "[]"
            and a = "sse_record hello_payload" and b = "sse_record there_payload"
            and after = "[]" and e = stream_done and w = new_writer
            and req = "example_request ''claude-3-sonnet'' [user_text ''Hi'']"
            and first_part = "''data: {no''" and middle = "[''t js'']"
            and last_part = "''on'' @ ''\<newline>''", OF h]
  have e1: "processGeminiStream sample_chunk_decoder
      (Some \<lparr>rb_values = [] @ [sse_record hello_payload @ ''data: '' @ ''{not json'' @ ''\<newline>''
                            @ sse_record there_payload] @ [],
             rb_end = stream_done\<rparr>) new_writer
      (example_request ''claude-3-sonnet'' [user_text ''Hi''])
    = processGeminiStream sample_chunk_decoder
      (Some \<lparr>rb_values = [] @ [sse_record hello_payload @ sse_record there_payload] @ [],
             rb_end = stream_done\<rparr>) new_writer
      (example_request ''claude-3-sonnet'' [user_text ''Hi''])"
    using t by (rule conjunct1)
  have e2: "processGeminiStream sample_chunk_decoder
      (Some \<lparr>rb_values = [] @ [sse_record hello_payload @ ''data: {no''] @ [''t js'']
                            @ [(''on'' @ ''\<newline>'') @ sse_record there_payload] @ [],
             rb_end = stream_done\<rparr>) new_writer
      (example_request ''claude-3-sonnet'' [user_text ''Hi''])
    = processGeminiStream sample_chunk_decoder
      (Some \<lparr>rb_values = [] @ [sse_record hello_payload, sse_record there_payload] @ [],
             rb_end = stream_done\<rparr>) new_writer
      (example_request ''claude-3-sonnet'' [user_text ''Hi''])"
    using t sp by blast
  show ?thesis
    unfolding e1 e2 by (simp add: clean_stream_events)
qed

end
